theory Spec2Isabelle
  imports Complex_Main "HOL-Library.Char_ord" "HOL-Library.List_Lexorder"
    "HOL-Library.Product_Lexorder" "HOL-Library.Sublist" "HOL-Library.Multiset"
begin

section \<open>Python values used by classroom\_sync.py\<close>

text \<open>
  The exceptions the module raises. A write to the sink fails with an \<open>APIError\<close> or
  with another exception; \<open>SupabaseSyncError\<close> carries that underlying cause, as the
  f-string of the \<open>raise\<close> does.
\<close>

datatype failure = APIError string | OtherException string

datatype error =
    DataValidationError
  | SupabaseSyncError failure
  | ZeroDivisionError

text \<open>
  Strings are lists of characters; a character stands for one code point below 256.
  \<open>is_space\<close> is \<open>str.isspace\<close> (and the class \<open>\s\<close> of \<open>re\<close> on \<open>str\<close>
  patterns) on that range: tab, line feed, vertical tab, form feed, carriage return, the
  four separators 0x1C..0x1F, space, NEL (0x85) and the no-break space (0xA0).
\<close>

definition code :: "char \<Rightarrow> nat" where
  "code c = of_char c"

definition is_space :: "char \<Rightarrow> bool" where
  "is_space c =
     (let n = code c
      in (9 \<le> n \<and> n \<le> 13) \<or> (28 \<le> n \<and> n \<le> 32) \<or> n = 133 \<or> n = 160)"

text \<open>
  \<open>str.lower\<close>, character by character. Below 256 the only letters it sends into the
  ASCII range are A..Z (codes 65..90, to 97..122); the accented capitals go to accented
  small letters, which the normalizer deletes just as it deletes the capitals, so they are
  left in place here.
\<close>

definition lower_char :: "char \<Rightarrow> char" where
  "lower_char c = (let n = code c in if 65 \<le> n \<and> n \<le> 90 then char_of (n + 32) else c)"

definition py_lower :: "string \<Rightarrow> string" where
  "py_lower s = map lower_char s"

text \<open>\<open>s.strip()\<close> and \<open>s.strip('-')\<close>: drop the characters from both ends.\<close>

definition strip_chars :: "(char \<Rightarrow> bool) \<Rightarrow> string \<Rightarrow> string" where
  "strip_chars P s = rev (dropWhile P (rev (dropWhile P s)))"

definition py_strip :: "string \<Rightarrow> string" where
  "py_strip s = strip_chars is_space s"

text \<open>
  \<open>re.sub(r'C+', '-', s)\<close> for a character class \<open>C\<close>: every maximal run of
  characters of the class is replaced by one hyphen.
\<close>

function sub_runs :: "(char \<Rightarrow> bool) \<Rightarrow> string \<Rightarrow> string" where
  "sub_runs P [] = []"
| "sub_runs P (c # cs) =
     (if P c then CHR ''-'' # sub_runs P (dropWhile P cs) else c # sub_runs P cs)"
  by pat_completeness auto
termination
  by (relation "measure (\<lambda>(P, s). length s)")
     (auto simp: le_imp_less_Suc length_dropWhile_le)

section \<open>The name normalizer: format\_assignment\_name\<close>

text \<open>The class \<open>[a-z0-9\s-]\<close> that the first substitution keeps.\<close>

definition kept_char :: "char \<Rightarrow> bool" where
  "kept_char c =
     (let n = code c
      in (97 \<le> n \<and> n \<le> 122) \<or> (48 \<le> n \<and> n \<le> 57) \<or> is_space c \<or> c = CHR ''-'')"

definition is_hyphen :: "char \<Rightarrow> bool" where
  "is_hyphen c = (c = CHR ''-'')"

text \<open>
  \<open>format_assignment_name\<close>: the guard \<open>if not name\<close> raises on the empty string
  (the \<open>isinstance\<close> half of the guard is the type of the argument here); then
  lower, delete what is outside \<open>[a-z0-9\s-]\<close>, whitespace runs to a hyphen, hyphen
  runs to a hyphen, strip hyphens at both ends.
\<close>

definition format_assignment_name :: "string \<Rightarrow> error + string" where
  "format_assignment_name name =
     (if name = [] then Inl DataValidationError
      else
        let formatted = py_lower name;
            formatted = filter kept_char formatted;
            formatted = sub_runs is_space formatted;
            formatted = sub_runs is_hyphen formatted;
            formatted = strip_chars is_hyphen formatted
        in Inr formatted)"

text \<open>\<open>normalize(normalize(x))\<close>: an exception of the inner call propagates.\<close>

definition format_twice :: "string \<Rightarrow> error + string" where
  "format_twice name =
     (case format_assignment_name name of
        Inl e \<Rightarrow> Inl e
      | Inr formatted \<Rightarrow> format_assignment_name formatted)"

text \<open>
  The shape of a normalized key, used to state what the last two substitutions establish:
  no two hyphens stand next to each other.
\<close>

fun nodd :: "string \<Rightarrow> bool" where
  "nodd (a # b # cs) = (\<not> (a = CHR ''-'' \<and> b = CHR ''-'') \<and> nodd (b # cs))"
| "nodd _ = True"

text \<open>The characters of a normalized key: \<open>[a-z0-9-]\<close>.\<close>

definition key_char :: "char \<Rightarrow> bool" where
  "key_char c =
     (let n = code c in (97 \<le> n \<and> n \<le> 122) \<or> (48 \<le> n \<and> n \<le> 57) \<or> c = CHR ''-'')"

section \<open>The assignment listing: \_parse\_assignments\_list\<close>

text \<open>\<open>s.split(sep)\<close> for a one-character separator: at least one field, empty fields kept.\<close>

fun py_split :: "char \<Rightarrow> string \<Rightarrow> string list" where
  "py_split sep [] = [[]]"
| "py_split sep (c # cs) =
     (if c = sep then [] # py_split sep cs
      else (case py_split sep cs of
              w # ws \<Rightarrow> (c # w) # ws
            | [] \<Rightarrow> [[c]]))"

definition newline :: char where
  "newline = CHR 0x0A"

definition tab :: char where
  "tab = CHR 0x09"

text \<open>
  The loop over \<open>lines[3:]\<close>: a line that is blank after \<open>strip\<close> is passed over, and so
  is a line with fewer than seven tab-separated parts; the others append
  \<open>(parts[0], parts[1], parts[6])\<close>.
\<close>

fun parse_data_lines ::
  "string list \<Rightarrow> (string \<times> string \<times> string) list \<Rightarrow> (string \<times> string \<times> string) list"
where
  "parse_data_lines [] assignments = assignments"
| "parse_data_lines (line # rest) assignments =
     (if py_strip line \<noteq> [] then
        (let parts = py_split tab line
         in if length parts \<ge> 7
            then parse_data_lines rest (assignments @ [(parts ! 0, parts ! 1, parts ! 6)])
            else parse_data_lines rest assignments)
      else parse_data_lines rest assignments)"

definition parse_assignments_list :: "string \<Rightarrow> error + (string \<times> string \<times> string) list" where
  "parse_assignments_list output =
     (let lines = py_split newline (py_strip output)
      in if length lines < 4 then Inl DataValidationError
         else Inr (parse_data_lines (drop 3 lines) []))"

text \<open>
  The data lines of a listing as the loop sees them, and the ones it turns into tuples:
  not blank, and at least seven fields.
\<close>

definition data_lines :: "string \<Rightarrow> string list" where
  "data_lines output = drop 3 (py_split newline (py_strip output))"

definition well_formed_line :: "string \<Rightarrow> bool" where
  "well_formed_line line = (py_strip line \<noteq> [] \<and> length (py_split tab line) \<ge> 7)"

definition line_tuple :: "string \<Rightarrow> string \<times> string \<times> string" where
  "line_tuple line = (let parts = py_split tab line in (parts ! 0, parts ! 1, parts ! 6))"

section \<open>Points available of an assignment: process\_assignments\_in\_memory\<close>

text \<open>
  The column \<open>points_available\<close> of the grade export, one cell per row; \<open>None\<close> is
  NaN. \<open>series_max\<close> is \<open>Series.max()\<close>: NaN cells are skipped, and the maximum of no
  value is NaN.
\<close>

definition present :: "int option list \<Rightarrow> int list" where
  "present cells = [v. Some v \<leftarrow> cells]"

definition series_max :: "int option list \<Rightarrow> int option" where
  "series_max cells =
     (case present cells of [] \<Rightarrow> None | v # vs \<Rightarrow> Some (fold max vs v))"

text \<open>\<open>df[df['points_available'] > 0]['points_available']\<close>: NaN \<open>> 0\<close> is false.\<close>

definition non_zero_points :: "int option list \<Rightarrow> int list" where
  "non_zero_points cells = filter (\<lambda>v. v > 0) (present cells)"

text \<open>\<open>sub in s\<close> on strings.\<close>

fun py_in :: "string \<Rightarrow> string \<Rightarrow> bool" where
  "py_in sub [] = (sub = [])"
| "py_in sub (c # cs) = (prefix sub (c # cs) \<or> py_in sub cs)"

text \<open>
  Lines 1059 to 1080. The column may be absent from the export (\<open>None\<close> for the whole
  column); the result \<open>None\<close> is the Python \<open>None\<close> stored as the assignment's
  \<open>points_available\<close>.
\<close>

definition resolve_points_available :: "int option list option \<Rightarrow> string \<Rightarrow> int option" where
  "resolve_points_available column formatted_name =
     (case column of
        None \<Rightarrow> None
      | Some cells \<Rightarrow>
          (let points_available = series_max cells
           in if points_available = Some 0 \<or> points_available = None then
                (let non_zero = non_zero_points cells
                 in if non_zero \<noteq> [] then Some (hd non_zero)
                    else if py_in ''part-2'' (py_lower formatted_name) then Some 100
                    else None)
              else points_available))"

text \<open>
  The policy in the words of the specification, for a present column: (1) the maximum of
  the non-null values; (2) if that is zero or absent, the first strictly positive value;
  (3) if there is none and the key contains \<open>part-2\<close>, 100; (4) otherwise unset.
\<close>

definition spec_points_available :: "int option list \<Rightarrow> string \<Rightarrow> int option" where
  "spec_points_available cells key =
     (if present cells \<noteq> [] \<and> Max (set (present cells)) \<noteq> 0
      then Some (Max (set (present cells)))
      else (case find (\<lambda>v. v > 0) (present cells) of
              Some p \<Rightarrow> Some p
            | None \<Rightarrow> if py_in ''part-2'' key then Some 100 else None))"

section \<open>Resolution time: calculate\_resolution\_time\<close>

text \<open>
  \<open>datetime.fromisoformat\<close> belongs to the standard library and is taken as a parameter:
  an \<open>iso_parser\<close> maps the text of a timestamp (after \<open>replace('Z', '+00:00')\<close>) to
  the instant it denotes, in microseconds from a fixed origin, with the flag that tells an
  offset-aware value from a naive one; \<open>None\<close> is the \<open>ValueError\<close> of a text that is
  not a timestamp.
\<close>

record datetime =
  aware :: bool
  micros :: int

type_synonym iso_parser = "string \<Rightarrow> datetime option"

text \<open>
  \<open>int(x)\<close> of a quotient truncates toward zero. \<open>trunc_div a b\<close> is
  \<open>int(a / b)\<close> for \<open>b > 0\<close>, in exact arithmetic (the source divides floats).
\<close>

definition trunc_div :: "int \<Rightarrow> int \<Rightarrow> int" where
  "trunc_div a b = (if a \<ge> 0 then a div b else - ((- a) div b))"

definition micros_per_hour :: int where
  "micros_per_hour = 3600 * 1000000"

text \<open>
  A timestamp argument is \<open>None\<close> or a string; \<open>not created_at\<close> holds for \<open>None\<close>
  and for the empty string. Subtracting an aware from a naive datetime raises
  \<open>TypeError\<close>; every exception of the body is caught and gives \<open>None\<close>.
\<close>

definition calculate_resolution_time ::
  "iso_parser \<Rightarrow> string option \<Rightarrow> string option \<Rightarrow> int option" where
  "calculate_resolution_time fromisoformat created_at updated_at =
     (case (created_at, updated_at) of
        (Some c, Some u) \<Rightarrow>
          if c = [] \<or> u = [] then None
          else (case (fromisoformat c, fromisoformat u) of
                  (Some created, Some updated) \<Rightarrow>
                    if aware created \<noteq> aware updated then None
                    else Some (trunc_div (micros updated - micros created) micros_per_hour)
                | _ \<Rightarrow> None)
      | _ \<Rightarrow> None)"

section \<open>Student aggregates: process\_assignments\_in\_memory\<close>

text \<open>
  The per-student record kept in \<open>students_with_repo_info\<close>, which is also the shape of a
  row of the student table read by the leaderboard refresh. A null \<open>has_fork\<close> of a table
  row is falsy and is \<open>False\<close> here.
\<close>

record student =
  github_username :: string
  fork_created_at :: "string option"
  last_updated_at :: "string option"
  resolution_time_hours :: "int option"
  has_fork :: bool

text \<open>The fields of the answer of \<open>get_repository_info\<close> that the reconciler reads.\<close>

record repo_info =
  created_at :: "string option"
  updated_at :: "string option"
  is_fork :: bool

text \<open>
  The cell \<open>row.get('student_repository_url', '')\<close>: a string, or NaN for a blank cell
  of the CSV; when the export has no such column it is the default \<open>''\<close>. NaN is truthy
  in Python, the empty string is not.
\<close>

datatype url_cell = UrlNaN | UrlText string

fun url_truthy :: "url_cell \<Rightarrow> bool" where
  "url_truthy UrlNaN = True"
| "url_truthy (UrlText s) = (s \<noteq> [])"

text \<open>
  \<open>get_repository_info\<close>: the guard \<open>if not repo_url or not isinstance(repo_url, str)\<close>
  returns \<open>None\<close>; what follows (the URL format, the \<open>gh api\<close> call, the JSON) is
  the external fetch, a parameter that answers \<open>None\<close> when it fails.
\<close>

type_synonym repo_fetch = "string \<Rightarrow> repo_info option"

fun get_repository_info :: "repo_fetch \<Rightarrow> url_cell \<Rightarrow> repo_info option" where
  "get_repository_info fetch UrlNaN = None"
| "get_repository_info fetch (UrlText s) = (if s = [] then None else fetch s)"

text \<open>
  \<open>students_with_repo_info\<close> is a dictionary in insertion order: an association list
  with distinct keys, read with \<open>map_of\<close>.
\<close>

type_synonym students_dict = "(string \<times> student) list"

definition no_fork_student :: "string \<Rightarrow> student" where
  "no_fork_student username =
     \<lparr>github_username = username, fork_created_at = None, last_updated_at = None,
      resolution_time_hours = None, has_fork = False\<rparr>"

definition fork_student :: "iso_parser \<Rightarrow> string \<Rightarrow> repo_info \<Rightarrow> student" where
  "fork_student fromisoformat username info =
     \<lparr>github_username = username, fork_created_at = created_at info,
      last_updated_at = updated_at info,
      resolution_time_hours =
        calculate_resolution_time fromisoformat (created_at info) (updated_at info),
      has_fork = True\<rparr>"

definition add_if_absent :: "students_dict \<Rightarrow> string \<Rightarrow> student \<Rightarrow> students_dict" where
  "add_if_absent students username s =
     (if map_of students username = None then students @ [(username, s)] else students)"

text \<open>
  One iteration of \<open>for _, row in df.iterrows()\<close> (lines 1094 to 1178), as far as the
  student dictionary goes. A grade row is the pair of its \<open>github_username\<close> cell and
  its URL cell.
\<close>

definition process_row ::
  "iso_parser \<Rightarrow> repo_fetch \<Rightarrow> students_dict \<Rightarrow> string \<times> url_cell \<Rightarrow> students_dict" where
  "process_row fromisoformat fetch students row =
     (let username = py_strip (fst row); student_repo_url = snd row
      in if url_truthy student_repo_url then
           (case get_repository_info fetch student_repo_url of
              Some info \<Rightarrow>
                if is_fork info
                then add_if_absent students username (fork_student fromisoformat username info)
                else add_if_absent students username (no_fork_student username)
            | None \<Rightarrow> add_if_absent students username (no_fork_student username))
         else students)"

text \<open>
  The loop over the assignments. An assignment comes with its display name and the rows
  of its grade export, \<open>None\<close> when the download gave nothing; an empty export and a name
  that \<open>format_assignment_name\<close> rejects (the exception is caught by the loop's
  \<open>except\<close>) leave the dictionary as it is.
\<close>

definition process_assignment ::
  "iso_parser \<Rightarrow> repo_fetch \<Rightarrow> students_dict \<Rightarrow> string \<times> (string \<times> url_cell) list option
     \<Rightarrow> students_dict" where
  "process_assignment fromisoformat fetch students a =
     (case snd a of
        None \<Rightarrow> students
      | Some rows \<Rightarrow>
          if rows = [] then students
          else (case format_assignment_name (fst a) of
                  Inl e \<Rightarrow> students
                | Inr formatted_name \<Rightarrow> foldl (process_row fromisoformat fetch) students rows))"

definition process_assignments ::
  "iso_parser \<Rightarrow> repo_fetch \<Rightarrow> (string \<times> (string \<times> url_cell) list option) list
     \<Rightarrow> students_dict" where
  "process_assignments fromisoformat fetch assignment_data =
     foldl (process_assignment fromisoformat fetch) [] assignment_data"

text \<open>How the reconciler classifies the repository of a row.\<close>

datatype repo_class = Fork | NotAFork | Unknown

definition classify :: "repo_fetch \<Rightarrow> url_cell \<Rightarrow> repo_class" where
  "classify fetch url =
     (case get_repository_info fetch url of
        None \<Rightarrow> Unknown
      | Some info \<Rightarrow> if is_fork info then Fork else NotAFork)"

section \<open>The leaderboard: refresh\_admin\_leaderboard\<close>

text \<open>The rows the refresh reads from the assignment and grade tables.\<close>

record assignment =
  a_name :: string
  points_available :: "int option"

record grade =
  g_username :: string
  g_assignment :: string
  points_awarded :: "int option"

record snapshot =
  students :: "student list"
  grades :: "grade list"
  assignments :: "assignment list"

text \<open>Truthiness of a nullable integer column: \<open>None\<close> and 0 are falsy.\<close>

definition truthy :: "int option \<Rightarrow> bool" where
  "truthy v = (case v of None \<Rightarrow> False | Some n \<Rightarrow> n \<noteq> 0)"

text \<open>
  \<open>assignment_points\<close>, first as the dictionary comprehension over the assignment rows
  with truthy \<open>points_available\<close> (a later row of the same name wins).
\<close>

definition initial_points :: "assignment list \<Rightarrow> (string \<rightharpoonup> int)" where
  "initial_points rows =
     foldl (\<lambda>m a. case points_available a of
                     None \<Rightarrow> m
                   | Some p \<Rightarrow> if p \<noteq> 0 then m(a_name a \<mapsto> p) else m)
           Map.empty rows"

text \<open>\<open>max(..., default=0)\<close> over the truthy \<open>points_awarded\<close> of one assignment.\<close>

definition max_points_awarded :: "grade list \<Rightarrow> string \<Rightarrow> int" where
  "max_points_awarded gs n =
     (case [v. g \<leftarrow> gs, g_assignment g = n, Some v \<leftarrow> [points_awarded g], v \<noteq> 0] of
        [] \<Rightarrow> 0
      | v # vs \<Rightarrow> fold max vs v)"

definition infer_points :: "grade list \<Rightarrow> (string \<rightharpoonup> int) \<Rightarrow> string \<Rightarrow> (string \<rightharpoonup> int)" where
  "infer_points gs m n =
     (if m n = None \<or> m n = Some 0 then
        (let max_points = max_points_awarded gs n
         in if max_points > 0 then m(n \<mapsto> max_points) else m)
      else m)"

text \<open>
  The loop runs over the set of assignment names of the grades. Each iteration reads and
  writes the entry of its own name only, so the order of the set does not matter; the names
  are taken in order of first occurrence.
\<close>

definition assignment_points :: "snapshot \<Rightarrow> (string \<rightharpoonup> int)" where
  "assignment_points db =
     foldl (infer_points (grades db)) (initial_points (assignments db))
           (remdups (map g_assignment (grades db)))"

definition total_system_assignments :: "snapshot \<Rightarrow> int" where
  "total_system_assignments db =
     (if assignments db = [] then 1 else int (length (assignments db)))"

text \<open>
  \<open>a / b\<close> raises \<open>ZeroDivisionError\<close> for \<open>b = 0\<close>. Quotients are exact rationals
  (the source computes them in floating point).
\<close>

definition py_truediv :: "rat \<Rightarrow> rat \<Rightarrow> error + rat" where
  "py_truediv a b = (if b = 0 then Inl ZeroDivisionError else Inr (a / b))"

text \<open>\<open>round(x)\<close> to an integer: to the nearest, a half to the even neighbour.\<close>

definition py_round :: "rat \<Rightarrow> int" where
  "py_round x =
     (let f = \<lfloor>x\<rfloor>; d = x - of_int f
      in if d < 1 / 2 then f
         else if d > 1 / 2 then f + 1
         else if even f then f else f + 1)"

definition points_or :: "(string \<rightharpoonup> int) \<Rightarrow> string \<Rightarrow> int \<Rightarrow> int" where
  "points_or m n d = (case m n of None \<Rightarrow> d | Some p \<Rightarrow> p)"

text \<open>
  The generator of \<open>sum_of_progresss\<close>: the condition of its \<open>if\<close>, and the term
  \<open>(int(points_awarded) / assignment_points.get(name, 1)) * 100\<close>.
\<close>

definition counted :: "(string \<rightharpoonup> int) \<Rightarrow> grade \<Rightarrow> bool" where
  "counted m g = (truthy (points_awarded g) \<and> points_or m (g_assignment g) 0 > 0)"

definition progress_term :: "(string \<rightharpoonup> int) \<Rightarrow> grade \<Rightarrow> error + rat" where
  "progress_term m g =
     (case py_truediv (of_int (case points_awarded g of None \<Rightarrow> 0 | Some v \<Rightarrow> v))
                      (of_int (points_or m (g_assignment g) 1)) of
        Inl e \<Rightarrow> Inl e
      | Inr q \<Rightarrow> Inr (q * 100))"

fun sum_terms :: "(error + rat) list \<Rightarrow> error + rat" where
  "sum_terms [] = Inr 0"
| "sum_terms (t # ts) =
     (case t of
        Inl e \<Rightarrow> Inl e
      | Inr v \<Rightarrow> (case sum_terms ts of Inl e \<Rightarrow> Inl e | Inr s \<Rightarrow> Inr (v + s)))"

definition student_grades :: "snapshot \<Rightarrow> string \<Rightarrow> grade list" where
  "student_grades db username = filter (\<lambda>g. g_username g = username) (grades db)"

definition progress :: "snapshot \<Rightarrow> string \<Rightarrow> error + int" where
  "progress db username =
     (let m = assignment_points db
      in case sum_terms (map (progress_term m) (filter (counted m) (student_grades db username))) of
           Inl e \<Rightarrow> Inl e
         | Inr sum_of_progresss \<Rightarrow>
             (case py_truediv sum_of_progresss (of_int (total_system_assignments db)) of
                Inl e \<Rightarrow> Inl e
              | Inr q \<Rightarrow> Inr (py_round q)))"

text \<open>Lines 641 to 648: the resolution time of a leaderboard entry.\<close>

definition leaderboard_resolution_time :: "iso_parser \<Rightarrow> student \<Rightarrow> int option" where
  "leaderboard_resolution_time fromisoformat st =
     (if has_fork st
      then calculate_resolution_time fromisoformat (fork_created_at st) (last_updated_at st)
      else None)"

record leaderboard_entry = student +
  total_score :: int
  total_possible :: int
  percentage :: int
  assignments_completed :: nat

definition build_entry :: "iso_parser \<Rightarrow> snapshot \<Rightarrow> student \<Rightarrow> error + leaderboard_entry" where
  "build_entry fromisoformat db st =
     (let gs = student_grades db (github_username st); m = assignment_points db
      in case progress db (github_username st) of
           Inl e \<Rightarrow> Inl e
         | Inr p \<Rightarrow>
             Inr \<lparr>github_username = github_username st,
                  fork_created_at = fork_created_at st,
                  last_updated_at = last_updated_at st,
                  resolution_time_hours = leaderboard_resolution_time fromisoformat st,
                  has_fork = has_fork st,
                  total_score = sum_list [v. g \<leftarrow> gs, Some v \<leftarrow> [points_awarded g], v \<noteq> 0],
                  total_possible = sum_list (map (\<lambda>g. points_or m (g_assignment g) 0) gs),
                  percentage = p,
                  assignments_completed = length (remdups (map g_assignment gs))\<rparr>)"

fun build_entries ::
  "iso_parser \<Rightarrow> snapshot \<Rightarrow> student list \<Rightarrow> error + leaderboard_entry list" where
  "build_entries fromisoformat db [] = Inr []"
| "build_entries fromisoformat db (st # sts) =
     (case build_entry fromisoformat db st of
        Inl e \<Rightarrow> Inl e
      | Inr entry \<Rightarrow>
          (case build_entries fromisoformat db sts of
             Inl e \<Rightarrow> Inl e
           | Inr entries \<Rightarrow> Inr (entry # entries)))"

text \<open>
  The sort key of lines 670 to 674. Tuples compare lexicographically and strings by code
  point; \<open>list.sort\<close> is stable, as \<open>sort_key\<close> is.
\<close>

definition ranking_key :: "'a leaderboard_entry_scheme \<Rightarrow> int \<times> int \<times> string" where
  "ranking_key x =
     (case resolution_time_hours x of None \<Rightarrow> 999999 | Some h \<Rightarrow> h,
      - percentage x,
      github_username x)"

record ranked_entry = leaderboard_entry +
  ranking_position :: nat

definition with_rank :: "nat \<times> leaderboard_entry \<Rightarrow> ranked_entry" where
  "with_rank p =
     (let x = snd p
      in \<lparr>github_username = github_username x, fork_created_at = fork_created_at x,
          last_updated_at = last_updated_at x,
          resolution_time_hours = resolution_time_hours x, has_fork = has_fork x,
          total_score = total_score x, total_possible = total_possible x,
          percentage = percentage x, assignments_completed = assignments_completed x,
          ranking_position = fst p\<rparr>)"

definition rank_entries :: "leaderboard_entry list \<Rightarrow> ranked_entry list" where
  "rank_entries leaderboard_data =
     map with_rank (enumerate 1 (sort_key ranking_key leaderboard_data))"

definition compute_leaderboard :: "iso_parser \<Rightarrow> snapshot \<Rightarrow> error + ranked_entry list" where
  "compute_leaderboard fromisoformat db =
     (case build_entries fromisoformat db (students db) of
        Inl e \<Rightarrow> Inl e
      | Inr leaderboard_data \<Rightarrow> Inr (rank_entries leaderboard_data))"

text \<open>
  The percentage in the words of the specification: the sum, over the student's grades
  whose \<open>points_awarded\<close> is not null and whose assignment has a resolved, strictly
  positive \<open>points_available\<close>, of awarded / available * 100, divided by the number of
  rows of the assignment table, rounded.
\<close>

definition term_value :: "(string \<rightharpoonup> int) \<Rightarrow> grade \<Rightarrow> rat" where
  "term_value m g =
     of_int (the (points_awarded g)) / of_int (the (m (g_assignment g))) * 100"



text \<open>
  The ranking order in the words of the specification: resolution time ascending with
  null read as 999999, then percentage descending, then username ascending.
\<close>

definition sentinel_time :: "'a leaderboard_entry_scheme \<Rightarrow> int" where
  "sentinel_time x = (case resolution_time_hours x of None \<Rightarrow> 999999 | Some h \<Rightarrow> h)"

definition ranks_before ::
  "'a leaderboard_entry_scheme \<Rightarrow> 'a leaderboard_entry_scheme \<Rightarrow> bool" where
  "ranks_before a b =
     (sentinel_time a < sentinel_time b
      \<or> (sentinel_time a = sentinel_time b
          \<and> (percentage a > percentage b
              \<or> (percentage a = percentage b \<and> github_username a < github_username b))))"

section \<open>Writing the leaderboard table\<close>

text \<open>
  The leaderboard table of the sink is the list of its rows, at most one per
  \<open>github_username\<close> (the conflict target of the upsert). The sink is external: whether
  a request fails is given by a \<open>sink_behaviour\<close>. An insert also fails when a row of
  the batch meets a username already stored, or twice in the batch.
\<close>

record sink_behaviour =
  delete_fails :: bool
  insert_fails :: "ranked_entry list \<Rightarrow> bool"
  upsert_fails :: "ranked_entry \<Rightarrow> bool"

definition usernames :: "ranked_entry list \<Rightarrow> string list" where
  "usernames rows = map github_username rows"

definition insert_batch ::
  "sink_behaviour \<Rightarrow> ranked_entry list \<Rightarrow> ranked_entry list \<Rightarrow> ranked_entry list option" where
  "insert_batch sink table batch =
     (if insert_fails sink batch \<or> \<not> distinct (usernames batch)
         \<or> (\<exists>u \<in> set (usernames batch). u \<in> set (usernames table))
      then None else Some (table @ batch))"

definition upsert_row :: "ranked_entry list \<Rightarrow> ranked_entry \<Rightarrow> ranked_entry list" where
  "upsert_row table x =
     (if github_username x \<in> set (usernames table)
      then map (\<lambda>r. if github_username r = github_username x then x else r) table
      else table @ [x])"

text \<open>The fallback of a failed batch: one upsert per row, a failure is logged and passed over.\<close>

definition upsert_each ::
  "sink_behaviour \<Rightarrow> ranked_entry list \<Rightarrow> ranked_entry list \<Rightarrow> ranked_entry list" where
  "upsert_each sink table batch =
     foldl (\<lambda>t x. if upsert_fails sink x then t else upsert_row t x) table batch"

text \<open>\<open>[data[i:i + n] for i in range(0, len(data), n)]\<close>.\<close>

function batches :: "nat \<Rightarrow> 'a list \<Rightarrow> 'a list list" where
  "batches n xs = (if n = 0 \<or> xs = [] then [] else take n xs # batches n (drop n xs))"
  by pat_completeness auto
termination
  by (relation "measure (\<lambda>(n, xs). length xs)") auto

declare batches.simps [simp del]

definition batch_size :: nat where
  "batch_size = 10"

definition write_batches ::
  "sink_behaviour \<Rightarrow> ranked_entry list \<Rightarrow> ranked_entry list list \<Rightarrow> ranked_entry list" where
  "write_batches sink table bs =
     foldl (\<lambda>t batch. case insert_batch sink t batch of
                         Some t' \<Rightarrow> t'
                       | None \<Rightarrow> upsert_each sink t batch)
           table bs"

text \<open>
  \<open>refresh_admin_leaderboard\<close> on a snapshot of the three tables and the leaderboard
  table as the previous run left it; the result is the leaderboard table afterwards. With
  no student row the function returns at once. The delete is a filter on \<open>id\<close> that
  every row passes, so a delete that succeeds empties the table; one that fails is logged
  and the table keeps its rows. Any exception of the body is raised again as
  \<open>SupabaseSyncError\<close>.
\<close>

definition refresh_admin_leaderboard ::
  "iso_parser \<Rightarrow> sink_behaviour \<Rightarrow> snapshot \<Rightarrow> ranked_entry list \<Rightarrow> error + ranked_entry list"
where
  "refresh_admin_leaderboard fromisoformat sink db table =
     (if students db = [] then Inr table
      else (case compute_leaderboard fromisoformat db of
              Inl e \<Rightarrow> Inl (SupabaseSyncError (OtherException ''division by zero''))
            | Inr leaderboard_data \<Rightarrow>
                (let cleared = (if delete_fails sink then table else [])
                 in Inr (write_batches sink cleared (batches batch_size leaderboard_data)))))"

section \<open>Writing with retries: the sync\_..\_to\_supabase functions\<close>

text \<open>
  The four functions end with the same loop, on the table and the conflict columns of
  each. The sink answers the attempts of one call in turn: \<open>respond i\<close> is \<open>None\<close>
  when attempt \<open>i\<close> succeeds and the exception it raises otherwise. The result is the
  outcome of the call together with the payloads sent, in order.
\<close>

function upsert_loop ::
  "(nat \<Rightarrow> failure option) \<Rightarrow> 'p \<Rightarrow> nat \<Rightarrow> nat \<Rightarrow> 'p list \<Rightarrow> (error + unit) \<times> 'p list" where
  "upsert_loop respond payload max_retries attempt sent =
     (if attempt < max_retries then
        (case respond attempt of
           None \<Rightarrow> (Inr (), sent @ [payload])
         | Some e \<Rightarrow>
             if attempt = max_retries - 1
             then (Inl (SupabaseSyncError e), sent @ [payload])
             else upsert_loop respond payload max_retries (attempt + 1) (sent @ [payload]))
      else (Inr (), sent))"
  by pat_completeness auto
termination
  by (relation "measure (\<lambda>(respond, payload, max_retries, attempt, sent). max_retries - attempt)")
     auto

text \<open>
  \<open>config.max_retries\<close> is an integer; \<open>range\<close> of a negative number is empty. A batch
  that is empty after preparation returns before the loop.
\<close>

definition sync_to_supabase ::
  "int \<Rightarrow> (nat \<Rightarrow> failure option) \<Rightarrow> 'r list \<Rightarrow> (error + unit) \<times> 'r list list" where
  "sync_to_supabase max_retries respond supabase_data =
     (if supabase_data = [] then (Inr (), [])
      else upsert_loop respond supabase_data (nat max_retries) 0 [])"

text \<open>Every stored record has one of the two shapes the reconciler writes.\<close>

definition well_shaped :: "students_dict \<Rightarrow> bool" where
  "well_shaped dict =
     (\<forall>(k, s) \<in> set dict. github_username s = k \<and> (\<not> has_fork s \<longrightarrow> s = no_fork_student k))"

section \<open>Concrete inputs\<close>

text \<open>Two sinks: one that fails twice and then accepts, one that never accepts.\<close>

definition flaky_sink :: "nat \<Rightarrow> failure option" where
  "flaky_sink i = (if i < 2 then Some (APIError ''timeout'') else None)"

definition dead_sink :: "nat \<Rightarrow> failure option" where
  "dead_sink i =
     (if i = 2 then Some (OtherException ''connection reset'') else Some (APIError ''timeout''))"

text \<open>
  A parser that knows four timestamps, as microseconds from 2024-01-01T00:00:00Z, all
  offset-aware.
\<close>

definition demo_clock :: iso_parser where
  "demo_clock =
     map_of
       [(''2024-01-01T00:00:00Z'', \<lparr>aware = True, micros = 0\<rparr>),
        (''2024-01-01T00:30:00Z'', \<lparr>aware = True, micros = 1800000000\<rparr>),
        (''2024-01-01T01:00:00Z'', \<lparr>aware = True, micros = 3600000000\<rparr>),
        (''2024-01-03T12:30:00Z'', \<lparr>aware = True, micros = 217800000000\<rparr>)]"

text \<open>
  Three students over two assignments. Alice's repository for Part 1 is not a fork and her
  Part 2 cell is blank; Bob's Part 1 repository is a fork and his Part 2 repository is not;
  the fetch of both repositories of Carol fails.
\<close>

definition demo_fetch :: repo_fetch where
  "demo_fetch =
     map_of
       [(''https://github.com/B4OS-Dev/part-1-alice'',
           \<lparr>created_at = Some ''2024-01-01T00:00:00Z'',
            updated_at = Some ''2024-01-01T01:00:00Z'', is_fork = False\<rparr>),
        (''https://github.com/B4OS-Dev/part-1-bob'',
           \<lparr>created_at = Some ''2024-01-01T00:00:00Z'',
            updated_at = Some ''2024-01-03T12:30:00Z'', is_fork = True\<rparr>),
        (''https://github.com/B4OS-Dev/part-2-bob'',
           \<lparr>created_at = Some ''2024-01-01T00:00:00Z'',
            updated_at = Some ''2024-01-01T00:30:00Z'', is_fork = False\<rparr>)]"

definition demo_part_1 :: "(string \<times> url_cell) list" where
  "demo_part_1 =
     [(''alice'', UrlText ''https://github.com/B4OS-Dev/part-1-alice''),
      (''bob'', UrlText ''https://github.com/B4OS-Dev/part-1-bob''),
      (''carol'', UrlText ''https://github.com/B4OS-Dev/part-1-carol'')]"

definition demo_part_2 :: "(string \<times> url_cell) list" where
  "demo_part_2 =
     [(''alice'', UrlNaN),
      (''bob'', UrlText ''https://github.com/B4OS-Dev/part-2-bob''),
      (''carol'', UrlText ''https://github.com/B4OS-Dev/part-2-carol'')]"

definition demo_assignments :: "(string \<times> (string \<times> url_cell) list option) list" where
  "demo_assignments = [(''Part 1'', Some demo_part_1), (''Part 2'', Some demo_part_2)]"

text \<open>
  A snapshot with four assignments of 50 points and one student, who has one grade of 50;
  and one with an empty assignment table, where the points of the assignment are the
  highest grade awarded.
\<close>

definition quarter_db :: snapshot where
  "quarter_db =
     \<lparr>students =
        [\<lparr>github_username = ''dana'', fork_created_at = None, last_updated_at = None,
          resolution_time_hours = None, has_fork = False\<rparr>],
      grades = [\<lparr>g_username = ''dana'', g_assignment = ''part-1'', points_awarded = Some 50\<rparr>],
      assignments =
        [\<lparr>a_name = ''part-1'', points_available = Some 50\<rparr>,
         \<lparr>a_name = ''part-2'', points_available = Some 50\<rparr>,
         \<lparr>a_name = ''part-3'', points_available = Some 50\<rparr>,
         \<lparr>a_name = ''part-4'', points_available = Some 50\<rparr>]\<rparr>"

definition empty_table_db :: snapshot where
  "empty_table_db =
     \<lparr>students =
        [\<lparr>github_username = ''erin'', fork_created_at = None, last_updated_at = None,
          resolution_time_hours = None, has_fork = False\<rparr>],
      grades = [\<lparr>g_username = ''erin'', g_assignment = ''part-1'', points_awarded = Some 40\<rparr>],
      assignments = []\<rparr>"

text \<open>Leaderboard entries that differ in resolution time, percentage and username only.\<close>

definition entry :: "string \<Rightarrow> int option \<Rightarrow> int \<Rightarrow> leaderboard_entry" where
  "entry username hours pct =
     \<lparr>github_username = username, fork_created_at = None, last_updated_at = None,
      resolution_time_hours = hours, has_fork = (hours \<noteq> None),
      total_score = 0, total_possible = 0, percentage = pct, assignments_completed = 0\<rparr>"

text \<open>
  A sink that never fails and one whose delete is refused; a row left in the leaderboard
  table by an earlier run; a snapshot without students and one with a single student.
\<close>

definition reliable_sink :: sink_behaviour where
  "reliable_sink =
     \<lparr>delete_fails = False, insert_fails = (\<lambda>batch. False), upsert_fails = (\<lambda>x. False)\<rparr>"

definition refusing_sink :: sink_behaviour where
  "refusing_sink =
     \<lparr>delete_fails = True, insert_fails = (\<lambda>batch. False), upsert_fails = (\<lambda>x. False)\<rparr>"

definition stale_row :: ranked_entry where
  "stale_row = with_rank (7, entry ''zed'' None 0)"

definition no_students_db :: snapshot where
  "no_students_db = \<lparr>students = [], grades = [], assignments = []\<rparr>"

section \<open>Verified properties\<close>

subsection \<open>The name normalizer\<close>

lemma sub_runs_id: "\<forall>c\<in>set s. \<not> P c \<Longrightarrow> sub_runs P s = s"
  by (induction s) auto

lemma sub_runs_hd: "sub_runs is_hyphen s = c # r \<Longrightarrow> s \<noteq> [] \<and> (c = CHR ''-'' \<longleftrightarrow> hd s = CHR ''-'')"
  by (cases s) (auto simp: is_hyphen_def split: if_splits)

lemma nodd_sub_runs: "nodd (sub_runs is_hyphen s)"
proof (induction is_hyphen s rule: sub_runs.induct)
  case 1
  then show ?case by simp
next
  case (2 c cs)
  show ?case
  proof (cases "is_hyphen c")
    case True
    let ?d = "dropWhile is_hyphen cs"
    have ih: "nodd (sub_runs is_hyphen ?d)" using 2 True by simp
    show ?thesis
    proof (cases "sub_runs is_hyphen ?d")
      case Nil
      then show ?thesis using True by simp
    next
      case (Cons e r)
      from sub_runs_hd[OF Cons] have "?d \<noteq> []" and e: "e = CHR ''-'' \<longleftrightarrow> hd ?d = CHR ''-''" by auto
      have "\<not> is_hyphen (hd ?d)" using \<open>?d \<noteq> []\<close> hd_dropWhile by blast
      then have "e \<noteq> CHR ''-''" using e by (simp add: is_hyphen_def)
      then show ?thesis using True ih Cons by simp
    qed
  next
    case False
    then have ih: "nodd (sub_runs is_hyphen cs)" using 2 by simp
    show ?thesis
    proof (cases "sub_runs is_hyphen cs")
      case Nil
      then show ?thesis using False by simp
    next
      case (Cons e r)
      then show ?thesis using False ih by (simp add: is_hyphen_def)
    qed
  qed
qed

lemma nodd_append:
  "nodd (xs @ ys) \<longleftrightarrow> nodd xs \<and> nodd ys \<and> (xs \<noteq> [] \<and> ys \<noteq> [] \<longrightarrow> \<not> (last xs = CHR ''-'' \<and> hd ys = CHR ''-''))"
  apply (induction xs rule: nodd.induct)
  subgoal by auto
  subgoal by simp
  subgoal for v by (cases ys) auto
  done

lemma nodd_rev: "nodd (rev xs) = nodd xs"
proof (induction xs)
  case Nil
  then show ?case by simp
next
  case (Cons a xs)
  have "nodd (rev xs @ [a]) \<longleftrightarrow> nodd (rev xs) \<and> (xs \<noteq> [] \<longrightarrow> \<not> (last (rev xs) = CHR ''-'' \<and> a = CHR ''-''))"
    by (simp add: nodd_append)
  also have "\<dots> \<longleftrightarrow> nodd (a # xs)"
    using Cons by (cases xs) (auto simp: last_rev)
  finally show ?case by simp
qed

lemma nodd_dropWhile: "nodd xs \<Longrightarrow> nodd (dropWhile P xs)"
proof -
  assume a: "nodd xs"
  have "xs = takeWhile P xs @ dropWhile P xs" by simp
  then have "nodd (takeWhile P xs @ dropWhile P xs)" using a by simp
  then show ?thesis unfolding nodd_append by blast
qed

lemma nodd_strip: "nodd xs \<Longrightarrow> nodd (strip_chars P xs)"
  by (simp add: strip_chars_def nodd_rev nodd_dropWhile)

lemma sub_runs_nodd: "nodd s \<Longrightarrow> sub_runs is_hyphen s = s"
  by (induction s rule: nodd.induct) (auto simp: is_hyphen_def)

lemma dropWhile_hd_fix: "xs \<noteq> [] \<Longrightarrow> \<not> P (hd xs) \<Longrightarrow> dropWhile P xs = xs"
  by (cases xs) auto

lemma last_dropWhile_eq: "dropWhile P xs \<noteq> [] \<Longrightarrow> last (dropWhile P xs) = last xs"
proof -
  assume a: "dropWhile P xs \<noteq> []"
  have "last (takeWhile P xs @ dropWhile P xs) = last (dropWhile P xs)"
    using a by (rule last_appendR)
  then show ?thesis by simp
qed

lemma strip_ends:
  assumes "strip_chars P s \<noteq> []"
  shows "\<not> P (hd (strip_chars P s)) \<and> \<not> P (last (strip_chars P s))"
proof -
  let ?d = "dropWhile P s"
  let ?e = "dropWhile P (rev ?d)"
  have e: "?e \<noteq> []" using assms by (simp add: strip_chars_def)
  have d: "?d \<noteq> []"
  proof
    assume "?d = []"
    then have "?e = []" by (simp only: rev.simps dropWhile.simps)
    then show False using e by (simp only:)
  qed
  have "last (rev ?e) = hd ?e" using e by (simp add: last_rev)
  moreover have "\<not> P (hd ?e)" using e by (rule hd_dropWhile)
  moreover have "hd (rev ?e) = last ?e" using e by (simp add: hd_rev)
  moreover have "last ?e = last (rev ?d)" using e by (rule last_dropWhile_eq)
  moreover have "last (rev ?d) = hd ?d" using d by (simp add: last_rev)
  moreover have "\<not> P (hd ?d)" using d by (rule hd_dropWhile)
  ultimately show ?thesis by (simp add: strip_chars_def)
qed

lemma strip_fix:
  assumes "s = [] \<or> (\<not> P (hd s) \<and> \<not> P (last s))"
  shows "strip_chars P s = s"
proof (cases "s = []")
  case True
  then show ?thesis by (simp add: strip_chars_def)
next
  case False
  then have h: "\<not> P (hd s)" and l: "\<not> P (last s)" using assms by auto
  have 1: "dropWhile P s = s" using False h by (rule dropWhile_hd_fix)
  have "\<not> P (hd (rev s))" using False l by (simp add: hd_rev)
  then have 2: "dropWhile P (rev s) = rev s" using False by (simp add: dropWhile_hd_fix)
  show ?thesis by (simp add: strip_chars_def 1 2)
qed

lemma sub_runs_set: "set (sub_runs P s) \<subseteq> {c \<in> set s. \<not> P c} \<union> {CHR ''-''}"
proof (induction P s rule: sub_runs.induct)
  case (1 P)
  then show ?case by simp
next
  case (2 P c cs)
  show ?case
  proof (cases "P c")
    case True
    then have "set (sub_runs P (dropWhile P cs))
        \<subseteq> {c \<in> set (dropWhile P cs). \<not> P c} \<union> {CHR ''-''}"
      using 2 by simp
    moreover have "set (dropWhile P cs) \<subseteq> set cs"
      by (auto dest: set_dropWhileD)
    ultimately show ?thesis using True by auto
  next
    case False
    then show ?thesis using 2 by auto
  qed
qed

lemma set_strip_chars: "set (strip_chars P s) \<subseteq> set s"
  unfolding strip_chars_def by (auto dest!: set_dropWhileD)

lemma code_hyphen: "code (CHR ''-'') = 45"
  by (simp add: code_def)

lemma key_char_not_space: "key_char c \<Longrightarrow> \<not> is_space c"
  unfolding key_char_def is_space_def Let_def
  by (auto simp: code_hyphen)

lemma key_char_lower: "key_char c \<Longrightarrow> lower_char c = c"
  unfolding key_char_def lower_char_def Let_def
  by (auto simp: code_hyphen)

lemma key_char_kept: "key_char c \<Longrightarrow> kept_char c"
  unfolding key_char_def kept_char_def Let_def by auto

lemma kept_char_cases: "kept_char c \<Longrightarrow> is_space c \<or> key_char c"
  unfolding key_char_def kept_char_def Let_def by auto

lemma key_char_hyphen: "key_char (CHR ''-'')"
  by (simp add: key_char_def)

lemma format_assignment_name_key:
  assumes "format_assignment_name x = Inr y"
  shows "(\<forall>c\<in>set y. key_char c) \<and> nodd y
         \<and> (y = [] \<or> (\<not> is_hyphen (hd y) \<and> \<not> is_hyphen (last y)))"
proof -
  define t1 where "t1 = filter kept_char (py_lower x)"
  define t2 where "t2 = sub_runs is_space t1"
  define t3 where "t3 = sub_runs is_hyphen t2"
  have y: "y = strip_chars is_hyphen t3"
    using assms
    by (auto simp: format_assignment_name_def Let_def t1_def t2_def t3_def split: if_splits)
  have k2: "\<forall>c\<in>set t2. key_char c"
  proof
    fix c assume "c \<in> set t2"
    then have "c \<in> {c \<in> set t1. \<not> is_space c} \<union> {CHR ''-''}"
      using sub_runs_set[of is_space t1] by (auto simp: t2_def)
    then show "key_char c"
      using kept_char_cases[of c] by (auto simp: t1_def key_char_hyphen)
  qed
  have k3: "\<forall>c\<in>set t3. key_char c"
  proof
    fix c assume "c \<in> set t3"
    then have "c \<in> {c \<in> set t2. \<not> is_hyphen c} \<union> {CHR ''-''}"
      using sub_runs_set[of is_hyphen t2] by (auto simp: t3_def)
    then show "key_char c" using k2 by (auto simp: key_char_hyphen)
  qed
  have "\<forall>c\<in>set y. key_char c"
    using k3 set_strip_chars[of is_hyphen t3] by (auto simp: y)
  moreover have "nodd y"
    unfolding y t3_def by (rule nodd_strip) (rule nodd_sub_runs)
  moreover have "y = [] \<or> (\<not> is_hyphen (hd y) \<and> \<not> is_hyphen (last y))"
    using strip_ends[of is_hyphen t3] by (auto simp: y)
  ultimately show ?thesis by blast
qed

lemma format_assignment_name_fixed:
  assumes k: "\<forall>c\<in>set y. key_char c" and n: "nodd y"
    and e: "y = [] \<or> (\<not> is_hyphen (hd y) \<and> \<not> is_hyphen (last y))"
    and ne: "y \<noteq> []"
  shows "format_assignment_name y = Inr y"
proof -
  have 1: "py_lower y = y"
    unfolding py_lower_def using k by (simp add: key_char_lower map_idI)
  have 2: "filter kept_char y = y"
    using k by (simp add: key_char_kept)
  have 3: "sub_runs is_space y = y"
    by (rule sub_runs_id) (use k key_char_not_space in blast)
  have 4: "sub_runs is_hyphen y = y"
    using n by (rule sub_runs_nodd)
  have 5: "strip_chars is_hyphen y = y"
    using e by (rule strip_fix)
  show ?thesis
    using ne by (simp add: format_assignment_name_def Let_def 1 2 3 4 5)
qed

text \<open>
  C4 (as amended). The normalizer is idempotent on every name whose normalized key is not
  empty: a second pass returns the key unchanged. (Determinism is the normalizer being a
  function of its argument.) The example of the specification evaluates as stated:
  "CS 101: Part 2!!" gives "cs-101-part-2". The first substitution keeps the class
  \<open>[a-z0-9\s-]\<close>, that is every whitespace character and not only the space.
\<close>

theorem format_assignment_name_idempotent:
  assumes "format_assignment_name x = Inr y" and "y \<noteq> []"
  shows "format_twice x = format_assignment_name x
         \<and> format_assignment_name ''CS 101: Part 2!!'' = Inr ''cs-101-part-2''"
proof -
  have "format_assignment_name y = Inr y"
    using format_assignment_name_key[OF assms(1)] assms(2)
    by (intro format_assignment_name_fixed) blast+
  then have "format_twice x = format_assignment_name x"
    using assms(1) by (simp add: format_twice_def)
  moreover have "format_assignment_name ''CS 101: Part 2!!'' = Inr ''cs-101-part-2''"
    by code_simp
  ultimately show ?thesis by blast
qed

theorem format_assignment_name_idempotent_witness:
  "format_assignment_name ''The Moria Mining Codex  --  Part_2'' = Inr ''the-moria-mining-codex-part2''
   \<and> format_twice ''The Moria Mining Codex  --  Part_2'' = Inr ''the-moria-mining-codex-part2''"
proof -
  have h: "format_assignment_name ''The Moria Mining Codex  --  Part_2''
             = Inr ''the-moria-mining-codex-part2''"
    by code_simp
  have n: "''the-moria-mining-codex-part2'' \<noteq> []" by simp
  show ?thesis
    using format_assignment_name_idempotent[OF h n] h by simp
qed

text \<open>
  C4 as stated fails where the key is empty: "!!!" is a non-empty name, its key is the
  empty string, and normalizing that key raises \<open>DataValidationError\<close>.
\<close>

theorem format_assignment_name_idempotent_counterexample:
  "format_assignment_name ''!!!'' = Inr [] \<and> format_twice ''!!!'' = Inl DataValidationError"
  by code_simp

text \<open>A tab is whitespace for \<open>\s\<close>: it becomes a hyphen and is not deleted.\<close>

lemma format_assignment_name_tab:
  "format_assignment_name [CHR ''a'', CHR 0x09, CHR ''b''] = Inr ''a-b''"
  by code_simp

subsection \<open>The assignment listing\<close>

lemma parse_data_lines_eq:
  "parse_data_lines ls acc = acc @ map line_tuple (filter well_formed_line ls)"
  by (induction ls arbitrary: acc) (auto simp: well_formed_line_def line_tuple_def Let_def)

text \<open>
  C9 (as amended). Parsing raises \<open>DataValidationError\<close> exactly when the listing,
  stripped of surrounding whitespace, has fewer than four lines. Otherwise it returns, in
  order, the tuple (field 0, field 1, field 6) of every data line that is not blank and has
  at least seven tab-separated fields; a data line with fewer fields is passed over and
  raises nothing.
\<close>

theorem parse_assignments_list_spec:
  "(length (py_split newline (py_strip output)) < 4
      \<longrightarrow> parse_assignments_list output = Inl DataValidationError)
   \<and> (4 \<le> length (py_split newline (py_strip output))
      \<longrightarrow> parse_assignments_list output
            = Inr (map line_tuple (filter well_formed_line (data_lines output))))"
  by (simp add: parse_assignments_list_def data_lines_def Let_def parse_data_lines_eq)

theorem parse_assignments_list_spec_witness:
  "parse_assignments_list
     (''ID'' @ [tab] @ ''Title'' @ [newline] @ ''---'' @ [newline] @ ''3 assignments''
       @ [newline] @ ''17'' @ [tab] @ ''Part 1'' @ [tab] @ ''individual'' @ [tab] @ ''private''
       @ [tab] @ ''true'' @ [tab] @ ''2025'' @ [tab] @ ''B4OS-Dev/part-1''
       @ [newline] @ ''18'' @ [tab] @ ''Part 2'' @ [newline])
     = Inr [(''17'', ''Part 1'', ''B4OS-Dev/part-1'')]
   \<and> parse_assignments_list (''ID'' @ [newline] @ ''---'' @ [newline] @ ''none'' @ [newline])
     = Inl DataValidationError"
proof -
  let ?full = "''ID'' @ [tab] @ ''Title'' @ [newline] @ ''---'' @ [newline] @ ''3 assignments''
       @ [newline] @ ''17'' @ [tab] @ ''Part 1'' @ [tab] @ ''individual'' @ [tab] @ ''private''
       @ [tab] @ ''true'' @ [tab] @ ''2025'' @ [tab] @ ''B4OS-Dev/part-1''
       @ [newline] @ ''18'' @ [tab] @ ''Part 2'' @ [newline]"
  let ?short = "''ID'' @ [newline] @ ''---'' @ [newline] @ ''none'' @ [newline]"
  have h1: "4 \<le> length (py_split newline (py_strip ?full))" by code_simp
  have h2: "length (py_split newline (py_strip ?short)) < 4" by code_simp
  have v: "map line_tuple (filter well_formed_line (data_lines ?full))
             = [(''17'', ''Part 1'', ''B4OS-Dev/part-1'')]"
    by code_simp
  have "parse_assignments_list ?full
          = Inr (map line_tuple (filter well_formed_line (data_lines ?full)))"
    using parse_assignments_list_spec[of ?full] h1 by blast
  moreover have "parse_assignments_list ?short = Inl DataValidationError"
    using parse_assignments_list_spec[of ?short] h2 by blast
  ultimately show ?thesis by (simp only: v)
qed

text \<open>
  C9 as stated fails: a listing of four lines whose only data line has three fields is
  parsed without an error, to the empty list.
\<close>

theorem parse_assignments_list_counterexample:
  "parse_assignments_list
     (''ID'' @ [newline] @ ''---'' @ [newline] @ ''1 assignment'' @ [newline]
       @ ''17'' @ [tab] @ ''Part 1'' @ [tab] @ ''individual'')
   = Inr []"
  by code_simp

subsection \<open>Points available\<close>

lemma series_max_Max:
  assumes "present cells \<noteq> []"
  shows "series_max cells = Some (Max (set (present cells)))"
proof (cases "present cells")
  case Nil
  then show ?thesis using assms by simp
next
  case (Cons v vs)
  have "fold max vs v = Max (set (v # vs))" by (rule Max.set_eq_fold[symmetric])
  then show ?thesis using Cons by (simp add: series_max_def)
qed

lemma series_max_None: "present cells = [] \<Longrightarrow> series_max cells = None"
  by (simp add: series_max_def)

lemma find_hd_filter: "find P xs = (case filter P xs of [] \<Rightarrow> None | x # _ \<Rightarrow> Some x)"
  by (induction xs) auto

lemma resolve_eq_spec:
  "py_lower key = key \<Longrightarrow>
     resolve_points_available (Some cells) key = spec_points_available cells key"
  by (cases "present cells = []")
     (auto simp: resolve_points_available_def spec_points_available_def Let_def series_max_Max
        series_max_None non_zero_points_def find_hd_filter split: list.splits option.splits)

lemma format_assignment_name_lower:
  assumes "format_assignment_name name = Inr key"
  shows "py_lower key = key"
  unfolding py_lower_def
  using format_assignment_name_key[OF assms] by (simp add: key_char_lower map_idI)

text \<open>
  C3. For the rows of an assignment's grade export and its normalized key, the resolved
  \<open>points_available\<close> is the four-step policy: the maximum non-null value; if that is
  zero or absent, the first strictly positive value; if there is none and the key contains
  \<open>part-2\<close>, 100; otherwise unset. Rows 0, 0, 20 resolve to 20; all-zero rows resolve to
  100 under a key with \<open>part-2\<close> and stay unset under a key without it.
\<close>

theorem resolve_points_available_policy:
  assumes "format_assignment_name name = Inr key"
  shows "resolve_points_available (Some cells) key = spec_points_available cells key
         \<and> resolve_points_available (Some [Some 0, Some 0, Some 20]) key = Some 20
         \<and> resolve_points_available (Some [Some 0, Some 0, Some 0]) ''the-codex-part-2''
             = Some 100
         \<and> resolve_points_available (Some [Some 0, Some 0, Some 0]) ''the-codex-part-1''
             = None"
proof -
  have l: "py_lower key = key" using assms by (rule format_assignment_name_lower)
  have 1: "resolve_points_available (Some cells) key = spec_points_available cells key"
    using l by (rule resolve_eq_spec)
  have 2: "resolve_points_available (Some [Some 0, Some 0, Some 20]) key = Some 20"
    by (simp add: resolve_points_available_def series_max_def present_def)
  have 3: "resolve_points_available (Some [Some 0, Some 0, Some 0]) ''the-codex-part-2''
             = Some 100"
    by code_simp
  have 4: "resolve_points_available (Some [Some 0, Some 0, Some 0]) ''the-codex-part-1''
             = None"
    by code_simp
  show ?thesis using 1 2 3 4 by blast
qed

theorem resolve_points_available_policy_witness:
  "resolve_points_available (Some [None, Some 0, Some 0]) ''the-moria-mining-codex-part-2''
     = Some 100
   \<and> spec_points_available [None, Some 0, Some 0] ''the-moria-mining-codex-part-2''
     = Some 100"
proof -
  have h: "format_assignment_name ''The Moria Mining Codex: Part 2''
             = Inr ''the-moria-mining-codex-part-2''"
    by code_simp
  have v: "spec_points_available [None, Some 0, Some 0] ''the-moria-mining-codex-part-2''
             = Some 100"
    by code_simp
  show ?thesis
    using resolve_points_available_policy[OF h, of "[None, Some 0, Some 0]"] v by simp
qed

subsection \<open>Writing with retries\<close>

lemma upsert_loop_fail:
  "attempt < n \<Longrightarrow> \<forall>i. attempt \<le> i \<and> i < n \<longrightarrow> respond i \<noteq> None \<Longrightarrow>
   upsert_loop respond payload n attempt sent
     = (Inl (SupabaseSyncError (the (respond (n - 1)))), sent @ replicate (n - attempt) payload)"
proof (induction respond payload n attempt sent rule: upsert_loop.induct)
  case (1 respond payload n attempt sent)
  obtain e where e: "respond attempt = Some e" using 1 by fastforce
  show ?case
  proof (cases "attempt = n - 1")
    case True
    then have "n - attempt = 1" using 1 by simp
    then show ?thesis using 1 e True by simp
  next
    case False
    then have lt: "attempt + 1 < n" using 1 by simp
    have "upsert_loop respond payload n (attempt + 1) (sent @ [payload])
       = (Inl (SupabaseSyncError (the (respond (n - 1)))),
          (sent @ [payload]) @ replicate (n - (attempt + 1)) payload)"
      using 1(1)[OF 1(2) e False lt] 1(3) by simp
    moreover have "replicate (n - attempt) payload = payload # replicate (n - (attempt + 1)) payload"
      using lt by (cases "n - attempt") auto
    ultimately show ?thesis using 1(2) e False by simp
  qed
qed

lemma upsert_loop_success:
  "attempt \<le> k \<Longrightarrow> k < n \<Longrightarrow> respond k = None \<Longrightarrow>
   \<forall>i. attempt \<le> i \<and> i < k \<longrightarrow> respond i \<noteq> None \<Longrightarrow>
   upsert_loop respond payload n attempt sent
     = (Inr (), sent @ replicate (k - attempt + 1) payload)"
proof (induction respond payload n attempt sent rule: upsert_loop.induct)
  case (1 respond payload n attempt sent)
  show ?case
  proof (cases "attempt = k")
    case True
    then show ?thesis using 1 by simp
  next
    case False
    then have lt: "attempt < k" using 1 by simp
    then obtain e where e: "respond attempt = Some e" using 1 by fastforce
    have ne: "attempt \<noteq> n - 1" using lt 1 by simp
    have an: "attempt < n" using lt 1 by simp
    have "upsert_loop respond payload n (attempt + 1) (sent @ [payload])
       = (Inr (), (sent @ [payload]) @ replicate (k - (attempt + 1) + 1) payload)"
      using 1(1)[OF an e ne] lt 1 by simp
    moreover have "replicate (k - attempt + 1) payload = payload # replicate (k - (attempt + 1) + 1) payload"
      using lt by (cases "k - attempt") auto
    ultimately show ?thesis using an e ne by simp
  qed
qed


text \<open>
  C8. A non-empty batch is sent with the same payload on every attempt. When attempt
  \<open>k\<close> (below \<open>max_retries\<close>) is the first to succeed, the operation returns after
  exactly \<open>k + 1\<close> writes and sends nothing more. When \<open>max_retries\<close> is positive and
  every attempt fails, exactly \<open>max_retries\<close> writes are made and
  \<open>SupabaseSyncError\<close> is raised with the cause of the last attempt.
\<close>

theorem sync_to_supabase_retries:
  "(supabase_data \<noteq> [] \<and> k < nat max_retries \<and> respond k = None
      \<and> (\<forall>i. i < k \<longrightarrow> respond i \<noteq> None)
     \<longrightarrow> sync_to_supabase max_retries respond supabase_data
           = (Inr (), replicate (k + 1) supabase_data))
   \<and> (supabase_data \<noteq> [] \<and> 0 < max_retries
      \<and> (\<forall>i. i < nat max_retries \<longrightarrow> respond i \<noteq> None)
     \<longrightarrow> (\<exists>e. respond (nat max_retries - 1) = Some e
           \<and> sync_to_supabase max_retries respond supabase_data
               = (Inl (SupabaseSyncError e), replicate (nat max_retries) supabase_data)))"
proof (intro conjI impI)
  assume a: "supabase_data \<noteq> [] \<and> k < nat max_retries \<and> respond k = None
      \<and> (\<forall>i. i < k \<longrightarrow> respond i \<noteq> None)"
  then have "upsert_loop respond supabase_data (nat max_retries) 0 []
      = (Inr (), [] @ replicate (k - 0 + 1) supabase_data)"
    by (intro upsert_loop_success) auto
  then show "sync_to_supabase max_retries respond supabase_data
           = (Inr (), replicate (k + 1) supabase_data)"
    using a by (simp add: sync_to_supabase_def)
next
  assume a: "supabase_data \<noteq> [] \<and> 0 < max_retries
      \<and> (\<forall>i. i < nat max_retries \<longrightarrow> respond i \<noteq> None)"
  then have pos: "0 < nat max_retries" by simp
  then have "respond (nat max_retries - 1) \<noteq> None" using a by simp
  then obtain e where e: "respond (nat max_retries - 1) = Some e" by blast
  have "upsert_loop respond supabase_data (nat max_retries) 0 []
      = (Inl (SupabaseSyncError (the (respond (nat max_retries - 1)))),
         [] @ replicate (nat max_retries - 0) supabase_data)"
    using pos a by (intro upsert_loop_fail) auto
  then have "sync_to_supabase max_retries respond supabase_data
               = (Inl (SupabaseSyncError e), replicate (nat max_retries) supabase_data)"
    using a e by (simp add: sync_to_supabase_def)
  then show "\<exists>e. respond (nat max_retries - 1) = Some e
           \<and> sync_to_supabase max_retries respond supabase_data
               = (Inl (SupabaseSyncError e), replicate (nat max_retries) supabase_data)"
    using e by blast
qed

theorem sync_to_supabase_retries_witness:
  "sync_to_supabase 3 flaky_sink [''alice'', ''bob'']
     = (Inr (), [[''alice'', ''bob''], [''alice'', ''bob''], [''alice'', ''bob'']])
   \<and> sync_to_supabase 3 dead_sink [''alice'', ''bob'']
     = (Inl (SupabaseSyncError (OtherException ''connection reset'')),
        [[''alice'', ''bob''], [''alice'', ''bob''], [''alice'', ''bob'']])"
proof -
  have h1: "[''alice'', ''bob''] \<noteq> [] \<and> (2::nat) < nat 3 \<and> flaky_sink 2 = None
      \<and> (\<forall>i. i < 2 \<longrightarrow> flaky_sink i \<noteq> None)"
    by (simp add: flaky_sink_def)
  have h2: "[''alice'', ''bob''] \<noteq> [] \<and> (0::int) < 3
      \<and> (\<forall>i. i < nat 3 \<longrightarrow> dead_sink i \<noteq> None)"
    by (simp add: dead_sink_def)
  have d: "dead_sink (nat 3 - 1) = Some (OtherException ''connection reset'')"
    by (simp add: dead_sink_def)
  from sync_to_supabase_retries[of "[''alice'', ''bob'']" 2 3 flaky_sink] h1
  have 1: "sync_to_supabase 3 flaky_sink [''alice'', ''bob'']
     = (Inr (), replicate (2 + 1) [''alice'', ''bob''])" by blast
  from sync_to_supabase_retries[of "[''alice'', ''bob'']" 0 3 dead_sink] h2
  obtain e where "dead_sink (nat 3 - 1) = Some e"
    and "sync_to_supabase 3 dead_sink [''alice'', ''bob'']
               = (Inl (SupabaseSyncError e), replicate (nat 3) [''alice'', ''bob''])" by blast
  then have 2: "sync_to_supabase 3 dead_sink [''alice'', ''bob'']
     = (Inl (SupabaseSyncError (OtherException ''connection reset'')), replicate (nat 3) [''alice'', ''bob''])"
    using d by simp
  show ?thesis using 1 2 by (simp add: numeral_3_eq_3)
qed

text \<open>With \<open>max_retries\<close> at most 0 the loop body never runs: nothing is sent, nothing is raised.\<close>

lemma sync_to_supabase_no_attempt:
  "max_retries \<le> 0 \<Longrightarrow> sync_to_supabase max_retries respond supabase_data = (Inr (), [])"
  by (simp add: sync_to_supabase_def)

subsection \<open>Resolution time\<close>





subsection \<open>Student aggregates\<close>

lemma add_if_absent_keeps:
  "map_of dict k = Some s \<Longrightarrow> map_of (add_if_absent dict u x) k = Some s"
  by (simp add: add_if_absent_def map_add_Some_iff)

lemma add_if_absent_new:
  "map_of dict u = None \<Longrightarrow> map_of (add_if_absent dict u x) u = Some x"
  by (simp add: add_if_absent_def map_add_def)

lemma add_if_absent_dom: "\<exists>s. map_of (add_if_absent dict u x) u = Some s"
  by (cases "map_of dict u") (auto simp: add_if_absent_def map_add_def)

lemma process_row_keeps:
  "map_of dict k = Some s \<Longrightarrow> map_of (process_row f fetch dict row) k = Some s"
  by (simp add: process_row_def Let_def add_if_absent_keeps split: option.splits)

lemma process_row_dom:
  "url_truthy (snd row) \<Longrightarrow> \<exists>s. map_of (process_row f fetch dict row) (py_strip (fst row)) = Some s"
  by (simp add: process_row_def Let_def add_if_absent_dom split: option.splits)

lemma process_row_new:
  "url_truthy url \<Longrightarrow> classify fetch url \<noteq> Fork \<Longrightarrow> map_of dict (py_strip u) = None \<Longrightarrow>
   map_of (process_row f fetch dict (u, url)) (py_strip u) = Some (no_fork_student (py_strip u))"
  by (auto simp: process_row_def Let_def classify_def add_if_absent_new split: option.splits if_splits)

lemma foldl_rows_keeps:
  "map_of dict k = Some s \<Longrightarrow> map_of (foldl (process_row f fetch) dict rows) k = Some s"
  by (induction rows arbitrary: dict) (auto simp: process_row_keeps)

lemma foldl_rows_dom:
  assumes "row \<in> set rows" and "url_truthy (snd row)"
  shows "\<exists>s. map_of (foldl (process_row f fetch) dict rows) (py_strip (fst row)) = Some s"
proof -
  obtain r1 r2 where rows: "rows = r1 @ row # r2" using assms(1) by (meson split_list)
  obtain s where "map_of (process_row f fetch (foldl (process_row f fetch) dict r1) row) (py_strip (fst row)) = Some s"
    using process_row_dom[OF assms(2)] by blast
  then have "map_of (foldl (process_row f fetch) dict rows) (py_strip (fst row)) = Some s"
    unfolding rows by (simp add: foldl_rows_keeps)
  then show ?thesis by blast
qed

lemma process_assignment_keeps:
  "map_of dict k = Some s \<Longrightarrow> map_of (process_assignment f fetch dict a) k = Some s"
  by (simp add: process_assignment_def foldl_rows_keeps split: option.splits sum.splits)

lemma foldl_assignments_keeps:
  "map_of dict k = Some s \<Longrightarrow> map_of (foldl (process_assignment f fetch) dict as) k = Some s"
  by (induction as arbitrary: dict) (auto simp: process_assignment_keeps)

lemma process_assignment_dom:
  assumes "format_assignment_name name = Inr key" and "row \<in> set rows" and "url_truthy (snd row)"
  shows "\<exists>s. map_of (process_assignment f fetch dict (name, Some rows)) (py_strip (fst row)) = Some s"
proof -
  have "rows \<noteq> []" using assms(2) by auto
  then show ?thesis
    using assms foldl_rows_dom[OF assms(2,3)] by (simp add: process_assignment_def)
qed

lemma add_if_absent_shaped:
  "well_shaped dict \<Longrightarrow> github_username x = u \<Longrightarrow> (\<not> has_fork x \<longrightarrow> x = no_fork_student u) \<Longrightarrow>
   well_shaped (add_if_absent dict u x)"
  by (auto simp: well_shaped_def add_if_absent_def)

lemma process_row_shaped: "well_shaped dict \<Longrightarrow> well_shaped (process_row f fetch dict row)"
  by (auto simp: process_row_def Let_def no_fork_student_def fork_student_def
      intro!: add_if_absent_shaped split: option.splits)

lemma foldl_rows_shaped:
  "well_shaped dict \<Longrightarrow> well_shaped (foldl (process_row f fetch) dict rows)"
  by (induction rows arbitrary: dict) (auto simp: process_row_shaped)

lemma process_assignment_shaped:
  "well_shaped dict \<Longrightarrow> well_shaped (process_assignment f fetch dict a)"
  by (simp add: process_assignment_def foldl_rows_shaped split: option.splits sum.splits)

lemma process_assignments_shaped: "well_shaped (process_assignments f fetch as)"
proof -
  have "well_shaped dict \<Longrightarrow> well_shaped (foldl (process_assignment f fetch) dict as)" for dict
    by (induction as arbitrary: dict) (auto simp: process_assignment_shaped)
  moreover have "well_shaped []" by (simp add: well_shaped_def)
  ultimately show ?thesis by (simp add: process_assignments_def)
qed

lemma process_assignments_dom:
  assumes "(name, Some rows) \<in> set assignment_data" and "format_assignment_name name = Inr key"
    and "(u, url) \<in> set rows" and "url_truthy url"
  shows "\<exists>s. map_of (process_assignments f fetch assignment_data) (py_strip u) = Some s"
proof -
  obtain a1 a2 where d: "assignment_data = a1 @ (name, Some rows) # a2"
    using assms(1) by (meson split_list)
  obtain s where "map_of (process_assignment f fetch (foldl (process_assignment f fetch) [] a1)
      (name, Some rows)) (py_strip (fst (u, url))) = Some s"
    using process_assignment_dom[OF assms(2), where row="(u, url)" and rows=rows and f=f
        and fetch=fetch and dict="foldl (process_assignment f fetch) [] a1"] assms(3,4)
    by auto
  then have "map_of (process_assignments f fetch assignment_data) (py_strip u) = Some s"
    unfolding process_assignments_def d by (simp add: foldl_assignments_keeps)
  then show ?thesis by blast
qed

text \<open>
  C5 (as amended). For every grade row of a processed assignment whose repository-URL
  cell is present (a string that is not empty, or a blank cell read as NaN), the username
  has a Student aggregate at the end of the run, and an aggregate without a fork is the
  one with \<open>has_fork = false\<close> and null timestamps. When the repository of the row is
  "not a fork" or "unknown" and the username has no aggregate yet, the row stores that
  no-fork aggregate; an aggregate stored by an earlier row is never overwritten
  (first write wins).
\<close>

theorem student_aggregate_produced:
  assumes "(name, Some rows) \<in> set assignment_data" and "format_assignment_name name = Inr key"
    and "(u, url) \<in> set rows" and "url_truthy url"
  shows "(\<exists>s. map_of (process_assignments f fetch assignment_data) (py_strip u) = Some s
            \<and> github_username s = py_strip u
            \<and> (\<not> has_fork s \<longrightarrow> s = no_fork_student (py_strip u)))
         \<and> (classify fetch url \<noteq> Fork \<and> map_of dict (py_strip u) = None
              \<longrightarrow> map_of (process_row f fetch dict (u, url)) (py_strip u)
                    = Some (no_fork_student (py_strip u)))
         \<and> (\<forall>k s. map_of dict k = Some s
              \<longrightarrow> map_of (process_row f fetch dict (u, url)) k = Some s)"
proof -
  obtain s where s: "map_of (process_assignments f fetch assignment_data) (py_strip u) = Some s"
    using process_assignments_dom[OF assms] by blast
  then have "(py_strip u, s) \<in> set (process_assignments f fetch assignment_data)"
    by (rule map_of_SomeD)
  then have "github_username s = py_strip u \<and> (\<not> has_fork s \<longrightarrow> s = no_fork_student (py_strip u))"
    using process_assignments_shaped[of f fetch assignment_data]
    unfolding well_shaped_def by blast
  then show ?thesis
    using s process_row_new[OF assms(4)] process_row_keeps by blast
qed

theorem student_aggregate_produced_witness:
  "map fst (process_assignments demo_clock demo_fetch demo_assignments)
     = [''alice'', ''bob'', ''carol'']
   \<and> (\<exists>s. map_of (process_assignments demo_clock demo_fetch demo_assignments) ''carol'' = Some s
          \<and> github_username s = ''carol''
          \<and> (\<not> has_fork s \<longrightarrow> s = no_fork_student ''carol''))"
proof -
  have h1: "(''Part 1'', Some demo_part_1) \<in> set demo_assignments"
    by (simp add: demo_assignments_def)
  have h2: "format_assignment_name ''Part 1'' = Inr ''part-1''" by code_simp
  have h3: "(''carol'', UrlText ''https://github.com/B4OS-Dev/part-1-carol'') \<in> set demo_part_1"
    by (simp add: demo_part_1_def)
  have h4: "url_truthy (UrlText ''https://github.com/B4OS-Dev/part-1-carol'')" by simp
  have c: "py_strip ''carol'' = ''carol''" by code_simp
  have v: "map fst (process_assignments demo_clock demo_fetch demo_assignments)
             = [''alice'', ''bob'', ''carol'']"
    by code_simp
  show ?thesis
    using student_aggregate_produced[OF h1 h2 h3 h4, of demo_clock demo_fetch "[]"] v
    by (simp only: c)
qed

text \<open>
  C5 as stated fails by the first-write-wins rule: Bob's Part 2 repository is classified
  "not a fork", yet no aggregate with \<open>has_fork = false\<close> is produced for him; the one
  stored by his Part 1 row stays, with \<open>has_fork = true\<close> and its timestamps.
\<close>

theorem student_aggregate_counterexample:
  "classify demo_fetch (UrlText ''https://github.com/B4OS-Dev/part-2-bob'') = NotAFork
   \<and> map_of (process_assignments demo_clock demo_fetch demo_assignments) ''bob''
       = Some \<lparr>github_username = ''bob'', fork_created_at = Some ''2024-01-01T00:00:00Z'',
               last_updated_at = Some ''2024-01-03T12:30:00Z'',
               resolution_time_hours = Some 60, has_fork = True\<rparr>"
  by code_simp

text \<open>
  A row whose URL cell is the empty string (the default of \<open>row.get\<close> when the export has
  no \<open>student_repository_url\<close> column) skips the whole block: no aggregate is stored.
\<close>

lemma process_row_no_url: "process_row f fetch dict (u, UrlText []) = dict"
  by (simp add: process_row_def)

subsection \<open>The percentage\<close>

lemma counted_divisor: "counted m g \<Longrightarrow> points_or m (g_assignment g) 1 > 0"
  by (auto simp: counted_def points_or_def split: option.splits)

lemma progress_term_counted:
  "counted m g \<Longrightarrow> progress_term m g = Inr (term_value m g)"
  by (auto simp: counted_def points_or_def progress_term_def py_truediv_def term_value_def truthy_def
      split: option.splits)

lemma sum_terms_Inr: "sum_terms (map Inr vs) = Inr (sum_list vs)"
  by (induction vs) auto

lemma sum_terms_counted:
  "sum_terms (map (progress_term m) (filter (counted m) gs))
     = Inr (sum_list (map (term_value m) (filter (counted m) gs)))"
proof -
  have "map (progress_term m) (filter (counted m) gs)
          = map Inr (map (term_value m) (filter (counted m) gs))"
    by (simp add: progress_term_counted)
  then show ?thesis by (simp only: sum_terms_Inr)
qed

lemma total_system_assignments_pos: "total_system_assignments db > 0"
  by (simp add: total_system_assignments_def)

lemma progress_value:
  "progress db username
     = Inr (py_round (sum_list (map (term_value (assignment_points db))
                        (filter (counted (assignment_points db)) (student_grades db username)))
                      / of_int (total_system_assignments db)))"
  using total_system_assignments_pos[of db]
  by (simp add: progress_def Let_def sum_terms_counted py_truediv_def)





lemma build_entry_fields:
  "\<exists>e. build_entry f db st = Inr e \<and> github_username e = github_username st
       \<and> progress db (github_username st) = Inr (percentage e)
       \<and> resolution_time_hours e = leaderboard_resolution_time f st"
  using progress_value[of db "github_username st"]
  by (simp add: build_entry_def Let_def)

lemma build_entries_fields:
  "\<exists>es. build_entries f db sts = Inr es \<and> length es = length sts
       \<and> map github_username es = map github_username sts
       \<and> (\<forall>e \<in> set es. progress db (github_username e) = Inr (percentage e))"
proof (induction sts)
  case Nil
  then show ?case by simp
next
  case (Cons st sts)
  obtain e where e: "build_entry f db st = Inr e" "github_username e = github_username st"
      "progress db (github_username st) = Inr (percentage e)"
    using build_entry_fields[of f db st] by blast
  obtain es where es: "build_entries f db sts = Inr es" "length es = length sts"
      "map github_username es = map github_username sts"
      "\<forall>e \<in> set es. progress db (github_username e) = Inr (percentage e)"
    using Cons by blast
  have "build_entries f db (st # sts) = Inr (e # es)" using e es by simp
  then show ?case using e es by auto
qed




text \<open>
  C10. The percentage computation never divides by zero, for any snapshot and any
  student: it always returns a number. The divisor of the final quotient is never zero and
  is 1 when the assignment table is empty; the divisor of a term is strictly positive for
  every grade the sum counts, and the default of a missing assignment in the term is 1.
\<close>

theorem percentage_never_divides_by_zero:
  "(\<exists>p. progress db username = Inr p)
   \<and> (\<exists>entries. compute_leaderboard f db = Inr entries)
   \<and> total_system_assignments db \<noteq> 0
   \<and> (assignments db = [] \<longrightarrow> total_system_assignments db = 1)
   \<and> (\<forall>g. counted (assignment_points db) g
         \<longrightarrow> points_or (assignment_points db) (g_assignment g) 1 > 0)
   \<and> (\<forall>n. assignment_points db n = None \<longrightarrow> points_or (assignment_points db) n 1 = 1)"
proof -
  have 1: "\<exists>p. progress db username = Inr p" by (simp add: progress_value)
  have 2: "\<exists>entries. compute_leaderboard f db = Inr entries"
    using build_entries_fields[of f db "students db"] by (auto simp: compute_leaderboard_def)
  have 3: "total_system_assignments db \<noteq> 0"
    using total_system_assignments_pos[of db] by simp
  have 4: "assignments db = [] \<longrightarrow> total_system_assignments db = 1"
    by (simp add: total_system_assignments_def)
  have 5: "\<forall>g. counted (assignment_points db) g
         \<longrightarrow> points_or (assignment_points db) (g_assignment g) 1 > 0"
    by (simp add: counted_divisor)
  have 6: "\<forall>n. assignment_points db n = None \<longrightarrow> points_or (assignment_points db) n 1 = 1"
    by (simp add: points_or_def)
  show ?thesis using 1 2 3 4 5 6 by blast
qed


theorem percentage_never_divides_by_zero_witness:
  "progress empty_table_db ''erin'' = Inr 100 \<and> total_system_assignments empty_table_db = 1"
proof -
  have v: "progress empty_table_db ''erin'' = Inr 100" by code_simp
  have e: "assignments empty_table_db = []" by (simp add: empty_table_db_def)
  show ?thesis
    using percentage_never_divides_by_zero[of empty_table_db "''erin''" demo_clock] v e
    by simp
qed

subsection \<open>The ranking\<close>

lemma ranking_key_less: "ranking_key a < ranking_key b \<longleftrightarrow> ranks_before a b"
  by (auto simp: ranking_key_def ranks_before_def sentinel_time_def less_prod_def)

lemma ranking_key_with_rank: "ranking_key (with_rank (i, x)) = ranking_key x"
  by (simp add: ranking_key_def with_rank_def)

lemma with_rank_enumerate: "map (ranking_key \<circ> with_rank) (enumerate n xs) = map ranking_key xs"
  by (induction xs arbitrary: n) (auto simp: ranking_key_with_rank)

lemma rank_entries_keys:
  "map ranking_key (rank_entries es) = map ranking_key (sort_key ranking_key es)"
  by (simp add: rank_entries_def with_rank_enumerate)

lemma distinct_keys:
  assumes "distinct (map github_username es)"
  shows "distinct (map ranking_key es)"
proof -
  have "map github_username es = map (snd \<circ> snd) (map ranking_key es)"
    by (simp add: ranking_key_def)
  then show ?thesis using assms by (metis distinct_map)
qed

lemma rank_entries_strict:
  assumes "distinct (map github_username es)"
  shows "sorted_wrt (<) (map ranking_key (rank_entries es))"
proof -
  have s: "sorted (map ranking_key (sort_key ranking_key es))" by (rule sorted_sort_key)
  have "mset (map ranking_key (sort_key ranking_key es)) = mset (map ranking_key es)"
    by simp
  then have "distinct (map ranking_key (sort_key ranking_key es))"
    using distinct_keys[OF assms] by (metis mset_eq_imp_distinct_iff)
  then show ?thesis using s by (simp add: rank_entries_keys strict_sorted_iff)
qed

lemma rank_entries_sorted:
  assumes "distinct (map github_username es)"
  shows "sorted_wrt ranks_before (rank_entries es)"
proof -
  have "sorted_wrt (\<lambda>a b. ranking_key a < ranking_key b) (rank_entries es)"
    using rank_entries_strict[OF assms] by (simp add: sorted_wrt_map)
  then show ?thesis by (simp add: ranking_key_less)
qed

lemma rank_entries_position:
  "i < length es \<Longrightarrow> ranking_position (rank_entries es ! i) = i + 1"
  by (simp add: rank_entries_def nth_enumerate_eq with_rank_def Let_def)

lemma rank_entries_mset:
  "mset (map ranking_key (rank_entries es)) = mset (map ranking_key es)"
  by (simp only: rank_entries_keys mset_map mset_sort)

lemma null_after_bounded:
  assumes s: "sorted_wrt ranks_before rs" and i: "i < length rs" and j: "j < length rs"
    and ti: "resolution_time_hours (rs ! i) = Some t" and t: "t < 999999"
    and tj: "resolution_time_hours (rs ! j) = None"
  shows "i < j"
proof (rule ccontr)
  assume "\<not> i < j"
  moreover have "i \<noteq> j" using ti tj by auto
  ultimately have "j < i" by simp
  then have "ranks_before (rs ! j) (rs ! i)" using s i by (simp add: sorted_wrt_nth_less)
  then show False using ti t tj by (simp add: ranks_before_def sentinel_time_def)
qed

text \<open>
  C2 (as amended). For leaderboard entries with distinct usernames, the ranked output
  holds the same entries, sorted strictly by: resolution time ascending with null read as
  the sentinel 999999, then percentage descending, then username ascending; the ranking
  position is the 1-based index in that order. A null time therefore sorts after every
  entry whose resolution time is below 999999. For A (10 h, 80), B (10 h, 90) and
  C (null, 100) the order is B, A, C.
\<close>

theorem ranking_order:
  assumes "distinct (map github_username es)"
  shows "sorted_wrt ranks_before (rank_entries es)
         \<and> mset (map ranking_key (rank_entries es)) = mset (map ranking_key es)
         \<and> length (rank_entries es) = length es
         \<and> (\<forall>i < length es. ranking_position (rank_entries es ! i) = i + 1)
         \<and> (\<forall>i j t. i < length es \<and> j < length es
               \<and> resolution_time_hours (rank_entries es ! i) = Some t \<and> t < 999999
               \<and> resolution_time_hours (rank_entries es ! j) = None \<longrightarrow> i < j)
         \<and> map github_username
              (rank_entries [entry ''A'' (Some 10) 80, entry ''B'' (Some 10) 90,
                             entry ''C'' None 100])
             = [''B'', ''A'', ''C'']"
proof -
  have 1: "sorted_wrt ranks_before (rank_entries es)" using assms by (rule rank_entries_sorted)
  have 3: "length (rank_entries es) = length es" by (simp add: rank_entries_def)
  have 5: "\<forall>i j t. i < length es \<and> j < length es
               \<and> resolution_time_hours (rank_entries es ! i) = Some t \<and> t < 999999
               \<and> resolution_time_hours (rank_entries es ! j) = None \<longrightarrow> i < j"
    using null_after_bounded[OF 1] 3 by metis
  have 6: "map github_username
              (rank_entries [entry ''A'' (Some 10) 80, entry ''B'' (Some 10) 90,
                             entry ''C'' None 100])
             = [''B'', ''A'', ''C'']"
    by code_simp
  have 2: "mset (map ranking_key (rank_entries es)) = mset (map ranking_key es)"
    by (rule rank_entries_mset)
  have 4: "\<forall>i < length es. ranking_position (rank_entries es ! i) = i + 1"
    using rank_entries_position by blast
  show ?thesis using 1 2 3 4 5 6 by blast
qed

theorem ranking_order_witness:
  "map (\<lambda>r. (github_username r, ranking_position r))
       (rank_entries [entry ''carol'' None 100, entry ''bob'' (Some 10) 90,
                      entry ''alice'' (Some 10) 90, entry ''dave'' (Some 3) 10])
     = [(''dave'', 1), (''alice'', 2), (''bob'', 3), (''carol'', 4)]
   \<and> sorted_wrt ranks_before
       (rank_entries [entry ''carol'' None 100, entry ''bob'' (Some 10) 90,
                      entry ''alice'' (Some 10) 90, entry ''dave'' (Some 3) 10])"
proof -
  have d: "distinct (map github_username
             [entry ''carol'' None 100, entry ''bob'' (Some 10) 90,
              entry ''alice'' (Some 10) 90, entry ''dave'' (Some 3) 10])"
    by (simp add: entry_def)
  have v: "map (\<lambda>r. (github_username r, ranking_position r))
       (rank_entries [entry ''carol'' None 100, entry ''bob'' (Some 10) 90,
                      entry ''alice'' (Some 10) 90, entry ''dave'' (Some 3) 10])
     = [(''dave'', 1), (''alice'', 2), (''bob'', 3), (''carol'', 4)]"
    by code_simp
  show ?thesis using ranking_order[OF d] v by blast
qed

text \<open>
  C2 as stated fails in "null sorts last": the sentinel is a number, and an entry with a
  resolution time above it is ranked after the entry with no resolution time.
\<close>

theorem ranking_order_counterexample:
  "map (\<lambda>r. (github_username r, resolution_time_hours r, ranking_position r))
       (rank_entries [entry ''xan'' (Some 1000000) 50, entry ''cy'' None 100])
     = [(''cy'', None, 1), (''xan'', Some 1000000, 2)]"
  by code_simp

subsection \<open>Replacing the leaderboard table\<close>

lemma concat_batches: "0 < n \<Longrightarrow> concat (batches n xs) = xs"
proof (induction n xs rule: batches.induct)
  case (1 n xs)
  show ?case
  proof (cases "xs = []")
    case True
    then show ?thesis by (subst batches.simps) simp
  next
    case False
    have ih: "concat (batches n (drop n xs)) = drop n xs"
      using 1(1)[of ] False 1(2) by simp
    have "concat (batches n xs) = take n xs @ concat (batches n (drop n xs))"
      using False 1(2) by (subst batches.simps) simp
    then show ?thesis by (simp add: ih)
  qed
qed

lemma upsert_each_append:
  assumes "\<forall>x. \<not> upsert_fails sink x"
  shows "distinct (usernames (t @ batch)) \<Longrightarrow> upsert_each sink t batch = t @ batch"
proof (induction batch arbitrary: t)
  case Nil
  then show ?case by (simp add: upsert_each_def)
next
  case (Cons x batch)
  have nx: "github_username x \<notin> set (usernames t)"
    using Cons.prems by (auto simp: usernames_def)
  then have u: "upsert_row t x = t @ [x]" by (simp add: upsert_row_def)
  have "distinct (usernames ((t @ [x]) @ batch))" using Cons.prems by simp
  then have "upsert_each sink (t @ [x]) batch = (t @ [x]) @ batch" by (rule Cons.IH)
  then show ?case using assms u by (simp add: upsert_each_def)
qed

lemma write_batches_append:
  assumes "\<forall>x. \<not> upsert_fails sink x"
  shows "distinct (usernames (t @ concat bs)) \<Longrightarrow> write_batches sink t bs = t @ concat bs"
proof (induction bs arbitrary: t)
  case Nil
  then show ?case by (simp add: write_batches_def)
next
  case (Cons b bs)
  have db: "distinct (usernames (t @ b))" using Cons.prems by (auto simp: usernames_def)
  have step: "(case insert_batch sink t b of Some t' \<Rightarrow> t' | None \<Rightarrow> upsert_each sink t b) = t @ b"
    using upsert_each_append[OF assms db] by (simp add: insert_batch_def)
  have "distinct (usernames ((t @ b) @ concat bs))" using Cons.prems by simp
  then have "write_batches sink (t @ b) bs = (t @ b) @ concat bs" by (rule Cons.IH)
  then show ?case using step by (simp add: write_batches_def)
qed

lemma with_rank_username: "map (github_username \<circ> with_rank) (enumerate n xs) = map github_username xs"
  by (induction xs arbitrary: n) (auto simp: with_rank_def Let_def)

lemma rank_entries_usernames:
  "mset (usernames (rank_entries es)) = mset (map github_username es)"
proof -
  have "usernames (rank_entries es) = map github_username (sort_key ranking_key es)"
    by (simp add: usernames_def rank_entries_def with_rank_username)
  then show ?thesis by (simp only: mset_map mset_sort)
qed

text \<open>
  C7 (as amended). On every run of the refresh in which the student table is not empty,
  the clear step succeeds and no single-row upsert fails, the leaderboard table afterwards
  holds exactly the entries recomputed from the current snapshot, in ranking order, and no
  row of a prior run, whatever the table held before and whether or not a batch insert
  fails (the rows then go through the per-row upsert).
\<close>

theorem leaderboard_replaced:
  assumes "students db \<noteq> []" and "\<not> delete_fails sink" and "\<forall>x. \<not> upsert_fails sink x"
    and "distinct (map github_username (students db))"
  shows "\<exists>leaderboard_data. compute_leaderboard f db = Inr leaderboard_data
           \<and> refresh_admin_leaderboard f sink db table = Inr leaderboard_data"
proof -
  obtain es where es: "build_entries f db (students db) = Inr es"
      "map github_username es = map github_username (students db)"
    using build_entries_fields[of f db "students db"] by blast
  have c: "compute_leaderboard f db = Inr (rank_entries es)"
    using es by (simp add: compute_leaderboard_def)
  have "distinct (map github_username es)" using es assms(4) by simp
  then have "distinct (usernames (rank_entries es))"
    using rank_entries_usernames[of es] by (metis mset_eq_imp_distinct_iff)
  then have "distinct (usernames ([] @ concat (batches batch_size (rank_entries es))))"
    by (simp add: concat_batches batch_size_def)
  then have "write_batches sink [] (batches batch_size (rank_entries es))
               = [] @ concat (batches batch_size (rank_entries es))"
    by (rule write_batches_append[OF assms(3)])
  then have "write_batches sink [] (batches batch_size (rank_entries es)) = rank_entries es"
    by (simp add: concat_batches batch_size_def)
  then have "refresh_admin_leaderboard f sink db table = Inr (rank_entries es)"
    using assms(1,2) c by (simp add: refresh_admin_leaderboard_def)
  then show ?thesis using c by blast
qed

theorem leaderboard_replaced_witness:
  "\<exists>leaderboard_data. refresh_admin_leaderboard demo_clock reliable_sink quarter_db [stale_row]
       = Inr leaderboard_data
     \<and> compute_leaderboard demo_clock quarter_db = Inr leaderboard_data
     \<and> map github_username leaderboard_data = [''dana'']"
proof -
  have h1: "students quarter_db \<noteq> []" by (simp add: quarter_db_def)
  have h2: "\<not> delete_fails reliable_sink" by (simp add: reliable_sink_def)
  have h3: "\<forall>x. \<not> upsert_fails reliable_sink x" by (simp add: reliable_sink_def)
  have h4: "distinct (map github_username (students quarter_db))" by (simp add: quarter_db_def)
  have n: "(case compute_leaderboard demo_clock quarter_db of
              Inl e \<Rightarrow> False | Inr es \<Rightarrow> map github_username es = [''dana''])"
    by code_simp
  obtain d where d: "compute_leaderboard demo_clock quarter_db = Inr d"
      "refresh_admin_leaderboard demo_clock reliable_sink quarter_db [stale_row] = Inr d"
    using leaderboard_replaced[OF h1 h2 h3 h4, of demo_clock "[stale_row]"] by blast
  have "map github_username d = [''dana'']" using n d(1) by simp
  then show ?thesis using d by (intro exI[of _ d]) simp
qed

text \<open>
  C7 as stated fails on a snapshot without students: the refresh returns before the clear
  step, so the recomputed set is empty and the row of the prior run stays in the table.
\<close>

theorem leaderboard_replaced_counterexample:
  "compute_leaderboard demo_clock no_students_db = Inr []
   \<and> refresh_admin_leaderboard demo_clock reliable_sink no_students_db [stale_row]
       = Inr [stale_row]"
  by (simp add: compute_leaderboard_def refresh_admin_leaderboard_def no_students_db_def
      rank_entries_def)

text \<open>
  A refused delete is tolerated as well: the refresh goes on, and the row of a username
  that is no longer a student stays beside the new one.
\<close>

lemma leaderboard_delete_refused:
  "(case refresh_admin_leaderboard demo_clock refusing_sink quarter_db [stale_row] of
      Inl e \<Rightarrow> False
    | Inr rows \<Rightarrow> map github_username rows = [''zed'', ''dana''])"
  by code_simp

end
